theory Spec2Isabelle
  imports Main "HOL-Library.AList" "HOL-Library.Char_ord" "HOL-Library.List_Lexorder"
begin

section \<open>Python values\<close>

text \<open>
  The values \<open>json.load\<close> produces, which are also the values the script stores in its
  dictionaries and table cells. A Python \<open>str\<close> is a \<open>string\<close>; its characters are
  compared by code, and a list of them lexicographically, as Python compares strings.
  A \<open>dict\<close> is an association list in insertion order, read with \<open>map_of\<close> and written
  with \<open>AList.update\<close> (an existing key keeps its place, a new key goes last). A float
  is kept as data only (mantissa and exponent, or one of the special values): the script
  never computes with the floats of a document, it only tests them for truth.
\<close>

datatype pyfloat = Finite int int | PosInf | NegInf | NotANumber

datatype json =
    JNull
  | JBool bool
  | JInt int
  | JFloat pyfloat
  | JStr string
  | JList "json list"
  | JDict "(string \<times> json) list"

datatype py_error = TypeError | AttributeError

type_synonym 'a result = "py_error + 'a"

text \<open>Truth value testing: \<open>if x:\<close> and \<open>not x\<close>.\<close>

fun float_truthy :: "pyfloat \<Rightarrow> bool" where
  "float_truthy (Finite m e) = (m \<noteq> 0)"
| "float_truthy PosInf = True"
| "float_truthy NegInf = True"
| "float_truthy NotANumber = True"

fun truthy :: "json \<Rightarrow> bool" where
  "truthy JNull = False"
| "truthy (JBool b) = b"
| "truthy (JInt n) = (n \<noteq> 0)"
| "truthy (JFloat f) = float_truthy f"
| "truthy (JStr s) = (s \<noteq> [])"
| "truthy (JList xs) = (xs \<noteq> [])"
| "truthy (JDict kvs) = (kvs \<noteq> [])"

text \<open>\<open>d.get(k, default)\<close> on a dictionary.\<close>

definition dict_get :: "(string \<times> 'v) list \<Rightarrow> string \<Rightarrow> 'v \<Rightarrow> 'v" where
  "dict_get d k dflt = (case map_of d k of None \<Rightarrow> dflt | Some v \<Rightarrow> v)"

text \<open>\<open>x.get(k, default)\<close> on any value: only a dictionary has the method.\<close>

fun py_get :: "json \<Rightarrow> string \<Rightarrow> json \<Rightarrow> json result" where
  "py_get (JDict d) k dflt = Inr (dict_get d k dflt)"
| "py_get _ k dflt = Inl AttributeError"

text \<open>
  \<open>len(x)\<close>: the number of elements of a list, of characters of a string, of keys of a
  dictionary; \<open>None\<close>, booleans and numbers have no length.
\<close>

fun py_len :: "json \<Rightarrow> int result" where
  "py_len (JList xs) = Inr (int (length xs))"
| "py_len (JStr s) = Inr (int (length s))"
| "py_len (JDict kvs) = Inr (int (length (remdups (map fst kvs))))"
| "py_len _ = Inl TypeError"

text \<open>
  \<open>for e in x\<close>: the elements of a list, the characters of a string (each a string of
  length one), the keys of a dictionary; anything else is not iterable.
\<close>

fun py_iter :: "json \<Rightarrow> json list result" where
  "py_iter (JList xs) = Inr xs"
| "py_iter (JStr s) = Inr (map (\<lambda>c. JStr [c]) s)"
| "py_iter (JDict kvs) = Inr (map JStr (rev (remdups (rev (map fst kvs)))))"
| "py_iter _ = Inl TypeError"

section \<open>Strings\<close>

text \<open>
  \<open>s.replace(old, new)\<close> for a non-empty \<open>old\<close>: every non-overlapping occurrence of
  \<open>old\<close>, found from the left, becomes \<open>new\<close>. The counter is the number of characters
  of the current occurrence still to be skipped.
\<close>

fun replace_from :: "string \<Rightarrow> string \<Rightarrow> nat \<Rightarrow> string \<Rightarrow> string" where
  "replace_from old new k [] = []"
| "replace_from old new (Suc k) (c # cs) = replace_from old new k cs"
| "replace_from old new 0 (c # cs) =
     (if old \<noteq> [] \<and> take (length old) (c # cs) = old
      then new @ replace_from old new (length old - 1) cs
      else c # replace_from old new 0 cs)"

definition str_replace :: "string \<Rightarrow> string \<Rightarrow> string \<Rightarrow> string" where
  "str_replace old new s = replace_from old new 0 s"

text \<open>\<open>s.startswith(p)\<close>.\<close>

definition startswith :: "string \<Rightarrow> string \<Rightarrow> bool" where
  "startswith s p = (take (length p) s = p)"

text \<open>
  \<open>s.rfind(c)\<close> for a single character: the index of its last occurrence, or \<open>-1\<close>.
\<close>

fun rfind_from :: "char \<Rightarrow> string \<Rightarrow> int \<Rightarrow> int \<Rightarrow> int" where
  "rfind_from c [] i found = found"
| "rfind_from c (x # xs) i found = rfind_from c xs (i + 1) (if x = c then i else found)"

definition rfind :: "char \<Rightarrow> string \<Rightarrow> int" where
  "rfind c s = rfind_from c s 0 (- 1)"

text \<open>
  \<open>os.path.basename\<close> is the function of the host's path module. On a POSIX host it is
  \<open>posixpath.basename\<close>: \<open>i = p.rfind('/') + 1; return p[i:]\<close>. The script's functions
  take the host's function as their first argument.
\<close>

definition posix_basename :: "string \<Rightarrow> string" where
  "posix_basename p = drop (nat (rfind (CHR ''/'') p + 1)) p"

section \<open>The Component Counter\<close>

text \<open>
  \<open>Counter(xs)\<close>, turned into a dictionary: for every element in turn,
  \<open>c[x] = c.get(x, 0) + 1\<close>.
\<close>

definition counter_add :: "(string \<times> int) list \<Rightarrow> string \<Rightarrow> (string \<times> int) list" where
  "counter_add c x = AList.update x (dict_get c x 0 + 1) c"

definition Counter :: "string list \<Rightarrow> (string \<times> int) list" where
  "Counter xs = foldl counter_add [] xs"

text \<open>
  The body of the loop of \<open>count_components_by_file\<close> for one entry: the file name it
  appends to \<open>component_files\<close>, if any. A \<open>file\<close> value that is true but is not a string
  makes \<open>os.path.basename\<close> raise \<open>TypeError\<close>.
\<close>

fun entry_file :: "(string \<Rightarrow> string) \<Rightarrow> json \<Rightarrow> string option result" where
  "entry_file basename (JDict d) =
     (case map_of d ''file'' of
        None \<Rightarrow> Inr None
      | Some file_path \<Rightarrow>
          if truthy file_path then
            (case file_path of
               JStr p \<Rightarrow> Inr (Some (basename p))
             | _ \<Rightarrow> Inl TypeError)
          else Inr None)"
| "entry_file basename _ = Inr None"

fun collect_files :: "(string \<Rightarrow> string) \<Rightarrow> string list \<Rightarrow> json list \<Rightarrow> string list result" where
  "collect_files basename component_files [] = Inr component_files"
| "collect_files basename component_files (component # rest) =
     (case entry_file basename component of
        Inl e \<Rightarrow> Inl e
      | Inr None \<Rightarrow> collect_files basename component_files rest
      | Inr (Some filename) \<Rightarrow> collect_files basename (component_files @ [filename]) rest)"

definition count_components_by_file ::
  "(string \<Rightarrow> string) \<Rightarrow> json \<Rightarrow> (string \<times> int) list result" where
  "count_components_by_file basename uc2_components =
     (if \<not> truthy uc2_components then Inr []
      else case py_iter uc2_components of
             Inl e \<Rightarrow> Inl e
           | Inr components \<Rightarrow>
               (case collect_files basename [] components of
                  Inl e \<Rightarrow> Inl e
                | Inr component_files \<Rightarrow> Inr (Counter component_files)))"

section \<open>The Metadata Extractor\<close>

text \<open>
  The dictionary \<open>extract_setup_metadata\<close> builds has a fixed set of keys, so it is a
  record. \<open>filename\<close> is the name the scanner passes, \<open>total_components\<close> an integer;
  the other fields hold whatever the document holds.
\<close>

record metadata =
  filename :: string
  name :: json
  uc2_verified :: json
  collection :: json
  author :: json
  github_link :: json
  description :: json
  category :: json
  version :: json
  createdAt :: json
  total_components :: int

text \<open>The scanner adds the key \<open>component_counts\<close> to that dictionary.\<close>

record setup_data = metadata +
  component_counts :: "(string \<times> int) list"

text \<open>\<open>data.get\<close> raises \<open>AttributeError\<close> when the document is not a dictionary.\<close>

fun extract_setup_metadata :: "json \<Rightarrow> string \<Rightarrow> metadata result" where
  "extract_setup_metadata (JDict data) fname = Inr
     \<lparr> filename = fname,
       name = dict_get data ''name'' (JStr []),
       uc2_verified = dict_get data ''uc2_verified'' (JBool False),
       collection = dict_get data ''collection'' (JStr []),
       author = dict_get data ''author'' (JStr []),
       github_link = dict_get data ''github_link'' (JStr []),
       description = dict_get data ''description'' (JStr []),
       category = dict_get data ''category'' (JStr []),
       version = dict_get data ''version'' (JStr []),
       createdAt = dict_get data ''createdAt'' (JStr []),
       total_components = 0 \<rparr>"
| "extract_setup_metadata _ fname = Inl AttributeError"

section \<open>The Record Loader and the Corpus Scanner\<close>

text \<open>
  What the logger receives: the level and the message, the message as its template and
  the values formatted into it. The path of a file of the folder is the value
  \<open>Path(setups_folder) / name\<close>: the folder the script was given and the name of the
  file in it.
\<close>

datatype level = INFO | ERROR

type_synonym path = "string \<times> string"

datatype message =
    InvalidJSON path
  | ErrorReading path
  | FolderNotFound string
  | FoundJSONFiles nat string
  | Processing string
  | ProcessedSetups nat
  | UniqueComponents nat
  | NoSetupData
  | CSVSaved string
  | StartingAnalysis
  | NoValidSetups
  | AnalysisComplete

type_synonym log_record = "level \<times> message"

text \<open>
  The file system as the script sees it: the folder is absent, or \<open>glob('*.json')\<close>
  yields its files in the order the host enumerates them, each with its name and with
  what opening and parsing it gives.
\<close>

datatype file_content = Malformed | Unreadable | Document json

type_synonym folder = "(string \<times> file_content) list"

text \<open>
  \<open>load_json_file\<close> returns the parsed value, or \<open>None\<close> after logging the error; a
  file that holds \<open>null\<close> gives \<open>None\<close> too.
\<close>

fun load_json_file :: "path \<Rightarrow> file_content \<Rightarrow> log_record list \<times> json" where
  "load_json_file filepath (Document data) = ([], data)"
| "load_json_file filepath Malformed = ([(ERROR, InvalidJSON filepath)], JNull)"
| "load_json_file filepath Unreadable = ([(ERROR, ErrorReading filepath)], JNull)"

text \<open>
  The body of the scanner's loop for a loaded document: the metadata, the length of the
  component list, the counts. Each step may raise; nothing catches it.
\<close>

definition process_document :: "(string \<Rightarrow> string) \<Rightarrow> json \<Rightarrow> string \<Rightarrow> setup_data result" where
  "process_document basename data fname =
     (case extract_setup_metadata data fname of
        Inl e \<Rightarrow> Inl e
      | Inr setup_metadata \<Rightarrow>
     (case py_get data ''uc2_components'' (JList []) of
        Inl e \<Rightarrow> Inl e
      | Inr uc2_components \<Rightarrow>
     (case py_len uc2_components of
        Inl e \<Rightarrow> Inl e
      | Inr n \<Rightarrow>
     (case count_components_by_file basename uc2_components of
        Inl e \<Rightarrow> Inl e
      | Inr counts \<Rightarrow>
          Inr (metadata.extend (setup_metadata\<lparr>total_components := n\<rparr>)
                 (setup_data.fields counts))))))"

record scan =
  scan_log :: "log_record list"
  setup_data_list :: "setup_data list"
  all_component_files :: "string set"

text \<open>
  The scanner's loop over the files of the folder: it logs the name of the file, loads
  the file by its path, and uses the name alone for the metadata.
\<close>

fun scan_files :: "(string \<Rightarrow> string) \<Rightarrow> string \<Rightarrow> scan \<Rightarrow> folder \<Rightarrow> scan result" where
  "scan_files basename setups_folder st [] = Inr st"
| "scan_files basename setups_folder st ((fname, content) # rest) =
     (case load_json_file (setups_folder, fname) content of (lg, data) \<Rightarrow>
        let st1 = st\<lparr>scan_log := scan_log st @ [(INFO, Processing fname)] @ lg\<rparr> in
        if data = JNull then scan_files basename setups_folder st1 rest
        else
          (case process_document basename data fname of
             Inl e \<Rightarrow> Inl e
           | Inr setup_metadata \<Rightarrow>
               scan_files basename setups_folder
                 (st1\<lparr>all_component_files :=
                         all_component_files st1 \<union> set (map fst (component_counts setup_metadata)),
                       setup_data_list := setup_data_list st1 @ [setup_metadata]\<rparr>)
                 rest))"

definition analyze_setups_folder ::
  "(string \<Rightarrow> string) \<Rightarrow> string \<Rightarrow> folder option \<Rightarrow>
     (log_record list \<times> setup_data list \<times> string set) result" where
  "analyze_setups_folder basename setups_folder fs =
     (case fs of
        None \<Rightarrow> Inr ([(ERROR, FolderNotFound setups_folder)], [], {})
      | Some json_files \<Rightarrow>
          (case scan_files basename setups_folder
                  \<lparr>scan_log = [(INFO, FoundJSONFiles (length json_files) setups_folder)],
                   setup_data_list = [], all_component_files = {}\<rparr> json_files of
             Inl e \<Rightarrow> Inl e
           | Inr st \<Rightarrow>
               Inr (scan_log st @
                      [(INFO, ProcessedSetups (length (setup_data_list st))),
                       (INFO, UniqueComponents (card (all_component_files st)))],
                    setup_data_list st, all_component_files st)))"

section \<open>The Table Builder and Reporter\<close>

text \<open>
  The name of the column of a component file:
  \<open>f"component_{component_file.replace('.', '_').replace(' ', '_').replace('-', '_')}"\<close>.
\<close>

definition col_name :: "string \<Rightarrow> string" where
  "col_name component_file =
     ''component_'' @
       str_replace ''-'' ''_'' (str_replace '' '' ''_'' (str_replace ''.'' ''_'' component_file))"

text \<open>
  A row is a dictionary from column names to cells. The dictionary literal gives the
  eleven metadata keys in its order; then, for every member of \<open>all_component_files\<close> in
  sorted order, \<open>row[col_name] = component_counts.get(component_file, 0)\<close>.
\<close>

type_synonym row = "(string \<times> json) list"

definition metadata_row :: "setup_data \<Rightarrow> row" where
  "metadata_row s =
     [(''filename'', JStr (filename s)),
      (''name'', name s),
      (''uc2_verified'', uc2_verified s),
      (''collection'', collection s),
      (''author'', author s),
      (''github_link'', github_link s),
      (''description'', description s),
      (''category'', category s),
      (''version'', version s),
      (''createdAt'', createdAt s),
      (''total_components'', JInt (total_components s))]"

definition add_component_column :: "setup_data \<Rightarrow> row \<Rightarrow> string \<Rightarrow> row" where
  "add_component_column s r component_file =
     AList.update (col_name component_file)
       (JInt (dict_get (component_counts s) component_file 0)) r"

definition build_row :: "string set \<Rightarrow> setup_data \<Rightarrow> row" where
  "build_row files s =
     foldl (add_component_column s) (metadata_row s) (sorted_list_of_set files)"

text \<open>
  The part of pandas the script uses. \<open>DataFrame(rows)\<close> on a list of dictionaries has
  the union of their keys as columns, in the order in which they are first seen, and one
  row of cells per dictionary (\<open>NaN\<close> where a dictionary lacks the key).
\<close>

record frame =
  columns :: "string list"
  cells :: "json list list"

definition first_seen :: "'a list \<Rightarrow> 'a list" where
  "first_seen xs = foldl (\<lambda>seen x. if x \<in> set seen then seen else seen @ [x]) [] xs"

definition DataFrame :: "row list \<Rightarrow> frame" where
  "DataFrame rows =
     (let cols = first_seen (concat (map (map fst) rows))
      in \<lparr>columns = cols,
          cells = map (\<lambda>r. map (\<lambda>c. dict_get r c (JFloat NotANumber)) cols) rows\<rparr>)"

text \<open>The cell of a row of the frame in a column.\<close>

definition cell :: "frame \<Rightarrow> json list \<Rightarrow> string \<Rightarrow> json" where
  "cell df r col = dict_get (zip (columns df) r) col JNull"

text \<open>
  \<open>df.sort_values('filename')\<close>: the rows in ascending order of the strings of that
  column. The column holds the names of the files of one folder, all strings; on
  equal keys the sort below keeps the order of the rows, where pandas promises none.
\<close>

fun str_key :: "json \<Rightarrow> string" where
  "str_key (JStr s) = s"
| "str_key _ = []"

definition sort_values :: "string \<Rightarrow> frame \<Rightarrow> frame" where
  "sort_values col df = df\<lparr>cells := sort_key (\<lambda>r. str_key (cell df r col)) (cells df)\<rparr>"

text \<open>
  \<open>df[component_cols].sum().sort_values(ascending=False)\<close>: the sum of every
  component column, the largest first. The component columns hold integers only.
  Where two totals are equal, pandas leaves their order to the sort of the host, which
  need not keep the order of the columns; the definition below keeps it, so only the
  order of different totals is the script's.
\<close>

fun int_cell :: "json \<Rightarrow> int" where
  "int_cell (JInt n) = n"
| "int_cell _ = 0"

definition column_sum :: "frame \<Rightarrow> string \<Rightarrow> int" where
  "column_sum df col = sum_list (map (\<lambda>r. int_cell (cell df r col)) (cells df))"

definition component_totals :: "frame \<Rightarrow> (string \<times> int) list" where
  "component_totals df =
     (let component_cols = filter (\<lambda>col. startswith col ''component_'') (columns df)
      in rev (sort_key snd (rev (map (\<lambda>col. (col, column_sum df col)) component_cols))))"

text \<open>
  What the script prints. The lines between the two counts and the component list (the
  mean, maximum and minimum of \<open>total_components\<close>, the verified setups, the top
  authors and collections) are statistics pandas computes from the metadata columns,
  after the file has been written. On some metadata pandas raises there (a
  \<open>uc2_verified\<close> column that holds a string, say), and the run ends with the file
  written and the later lines not printed. The model has neither those lines nor that
  exception: \<open>printed\<close> lists the other lines as the script prints them when the
  statistics succeed, and \<open>written\<close> is the file in either case.
\<close>

datatype printed_line =
    Banner
  | TotalSetups nat
  | TotalUniqueComponents nat
  | MostUsedHeading
  | MostUsed nat string int
  | SavedTo string

definition most_used_lines :: "frame \<Rightarrow> printed_line list" where
  "most_used_lines df =
     concat (map (\<lambda>(i, (col, count)).
                    if count > 0
                    then [MostUsed (i + 1)
                            (str_replace ''_'' '' '' (str_replace ''component_'' [] col)) count]
                    else [])
                 (List.enumerate 0 (take 10 (component_totals df))))"

record effects =
  logged :: "log_record list"
  written :: "(string \<times> frame) option"
  printed :: "printed_line list"

definition create_csv_database :: "setup_data list \<Rightarrow> string set \<Rightarrow> string \<Rightarrow> effects" where
  "create_csv_database setups files output_file =
     (if setups = [] then
        \<lparr>logged = [(ERROR, NoSetupData)], written = None, printed = []\<rparr>
      else
        let rows = map (build_row files) setups;
            df = sort_values ''filename'' (DataFrame rows)
        in \<lparr>logged = [(INFO, CSVSaved output_file)],
            written = Some (output_file, df),
            printed = [Banner, TotalSetups (length (cells df)), TotalUniqueComponents (card files),
                       MostUsedHeading] @ most_used_lines df @ [SavedTo output_file, Banner]\<rparr>)"

text \<open>The entry point, on the file system it finds.\<close>

definition main :: "(string \<Rightarrow> string) \<Rightarrow> folder option \<Rightarrow> effects result" where
  "main basename fs =
     (case analyze_setups_folder basename ''./setups'' fs of
        Inl e \<Rightarrow> Inl e
      | Inr (lg, setups, files) \<Rightarrow>
          if setups = [] then
            Inr \<lparr>logged = [(INFO, StartingAnalysis)] @ lg @ [(ERROR, NoValidSetups)],
                 written = None, printed = []\<rparr>
          else
            let eff = create_csv_database setups files ''setups_analysis.csv''
            in Inr (eff\<lparr>logged := [(INFO, StartingAnalysis)] @ lg @ logged eff @
                                     [(INFO, AnalysisComplete)]\<rparr>))"

section \<open>Notions the properties are stated with\<close>

text \<open>
  An entry of the component list is usable when it is a dictionary whose \<open>file\<close> value
  is a non-empty string; \<open>entry_path\<close> is that string.
\<close>

fun usable_entry :: "json \<Rightarrow> bool" where
  "usable_entry (JDict d) = (case map_of d ''file'' of Some (JStr p) \<Rightarrow> p \<noteq> [] | _ \<Rightarrow> False)"
| "usable_entry _ = False"

fun entry_path :: "json \<Rightarrow> string" where
  "entry_path (JDict d) = (case map_of d ''file'' of Some (JStr p) \<Rightarrow> p | _ \<Rightarrow> [])"
| "entry_path _ = []"

text \<open>
  An entry raises when its \<open>file\<close> value is true without being a string.
\<close>

fun raising_entry :: "json \<Rightarrow> bool" where
  "raising_entry (JDict d) =
     (case map_of d ''file'' of None \<Rightarrow> False | Some (JStr p) \<Rightarrow> False | Some v \<Rightarrow> truthy v)"
| "raising_entry _ = False"

text \<open>
  The metadata fields read from the document: the key, the field, the default.
\<close>

definition json_fields :: "(string \<times> (metadata \<Rightarrow> json) \<times> json) list" where
  "json_fields =
     [(''name'', name, JStr []),
      (''uc2_verified'', uc2_verified, JBool False),
      (''collection'', collection, JStr []),
      (''author'', author, JStr []),
      (''github_link'', github_link, JStr []),
      (''description'', description, JStr []),
      (''category'', category, JStr []),
      (''version'', version, JStr []),
      (''createdAt'', createdAt, JStr [])]"

text \<open>
  The characters the column names cannot tell apart, and the identifiers that agree up
  to them.
\<close>

definition placeholder_chars :: "char set" where
  "placeholder_chars = {CHR ''.'', CHR '' '', CHR ''-'', CHR ''_''}"

definition same_up_to_placeholders :: "string \<Rightarrow> string \<Rightarrow> bool" where
  "same_up_to_placeholders a b =
     list_all2 (\<lambda>x y. x = y \<or> (x \<in> placeholder_chars \<and> y \<in> placeholder_chars)) a b"

definition sanitize_char :: "char \<Rightarrow> char" where
  "sanitize_char x = (if x = CHR ''.'' \<or> x = CHR '' '' \<or> x = CHR ''-'' then CHR ''_'' else x)"

text \<open>The metadata columns, in the order of the dictionary literal of a row.\<close>

definition metadata_columns :: "string list" where
  "metadata_columns =
     [''filename'', ''name'', ''uc2_verified'', ''collection'', ''author'', ''github_link'',
      ''description'', ''category'', ''version'', ''createdAt'', ''total_components'']"

text \<open>
  What \<open>load_json_file\<close> returns for a file, whatever its path: the document, or
  \<open>None\<close>.
\<close>

fun file_data :: "file_content \<Rightarrow> json" where
  "file_data (Document data) = data"
| "file_data Malformed = JNull"
| "file_data Unreadable = JNull"

text \<open>
  What the scanner's loop does with one file: it raises, skips the file (\<open>None\<close>), or
  appends a setup. \<open>loaded_setups\<close> are the setups of a folder in the order of its
  files, \<open>universe\<close> the component identifiers they count, and \<open>output_table\<close> the
  file a run has written, if any.
\<close>

definition file_setup :: "(string \<Rightarrow> string) \<Rightarrow> string \<times> file_content \<Rightarrow> setup_data option result" where
  "file_setup basename x =
     (let data = file_data (snd x)
      in if data = JNull then Inr None
         else map_sum id Some (process_document basename data (fst x)))"

definition file_setups :: "(string \<Rightarrow> string) \<Rightarrow> string \<times> file_content \<Rightarrow> setup_data list" where
  "file_setups basename x =
     (case file_setup basename x of Inr (Some s) \<Rightarrow> [s] | _ \<Rightarrow> [])"

definition loaded_setups :: "(string \<Rightarrow> string) \<Rightarrow> folder \<Rightarrow> setup_data list" where
  "loaded_setups basename fs = concat (map (file_setups basename) fs)"

definition universe :: "(string \<Rightarrow> string) \<Rightarrow> folder \<Rightarrow> string set" where
  "universe basename fs =
     (\<Union>s \<in> set (loaded_setups basename fs). set (map fst (component_counts s)))"

definition output_table :: "effects result \<Rightarrow> (string \<times> frame) option" where
  "output_table r = (case r of Inl e \<Rightarrow> None | Inr eff \<Rightarrow> written eff)"

text \<open>The cells of the row of a setup, one per column of the table.\<close>

definition setup_cells :: "string set \<Rightarrow> setup_data \<Rightarrow> json list" where
  "setup_cells files s =
     map (\<lambda>c. dict_get (build_row files s) c (JFloat NotANumber))
       (metadata_columns @ first_seen (map col_name (sorted_list_of_set files)))"

text \<open>
  The scenario of the specification: document A references \<open>nema17.stl\<close> twice and
  \<open>laser.stl\<close> once, document B references \<open>nema17.stl\<close> once; and the table expected
  for the files \<open>A.json\<close> and \<open>B.json\<close>.
\<close>

definition doc_A :: json where
  "doc_A = JDict [(''uc2_components'',
       JList [JDict [(''file'', JStr ''nema17.stl'')], JDict [(''file'', JStr ''nema17.stl'')],
              JDict [(''file'', JStr ''laser.stl'')]])]"

definition doc_B :: json where
  "doc_B = JDict [(''uc2_components'', JList [JDict [(''file'', JStr ''nema17.stl'')]])]"

definition scenario_table :: frame where
  "scenario_table =
     \<lparr>columns =
        [''filename'', ''name'', ''uc2_verified'', ''collection'', ''author'', ''github_link'',
         ''description'', ''category'', ''version'', ''createdAt'', ''total_components'',
         ''component_laser_stl'', ''component_nema17_stl''],
      cells =
        [[JStr ''A.json'', JStr [], JBool False, JStr [], JStr [], JStr [], JStr [], JStr [],
          JStr [], JStr [], JInt 3, JInt 1, JInt 2],
         [JStr ''B.json'', JStr [], JBool False, JStr [], JStr [], JStr [], JStr [], JStr [],
          JStr [], JStr [], JInt 1, JInt 0, JInt 1]]\<rparr>"

section \<open>Properties of the Component Counter\<close>

lemma entry_file_Some:
  "entry_file bn e = Inr (Some f) \<Longrightarrow> usable_entry e \<and> f = bn (entry_path e)"
  by (cases e) (auto split: option.splits json.splits if_splits)

lemma entry_file_None:
  "entry_file bn e = Inr None \<Longrightarrow> \<not> usable_entry e"
  by (cases e) (auto split: option.splits json.splits if_splits)

lemma collect_files_eq:
  "collect_files bn acc xs = Inr fs \<Longrightarrow>
     fs = acc @ map (\<lambda>e. bn (entry_path e)) (filter usable_entry xs)"
proof (induction xs arbitrary: acc)
  case Nil
  then show ?case by simp
next
  case (Cons x xs)
  show ?case
  proof (cases "entry_file bn x")
    case (Inl e)
    with Cons.prems show ?thesis by simp
  next
    case (Inr r)
    show ?thesis
    proof (cases r)
      case None
      with Inr Cons.prems have "collect_files bn acc xs = Inr fs" by simp
      from Cons.IH [OF this] entry_file_None [of bn x] Inr None show ?thesis by simp
    next
      case (Some f)
      with Inr Cons.prems have "collect_files bn (acc @ [f]) xs = Inr fs" by simp
      from Cons.IH [OF this] entry_file_Some [of bn x f] Inr Some show ?thesis by simp
    qed
  qed
qed

lemma sum_counter_add:
  "distinct (map fst c) \<Longrightarrow> sum_list (map snd (counter_add c x)) = sum_list (map snd c) + 1"
  unfolding counter_add_def dict_get_def
  by (induction c) (auto split: option.splits)

lemma distinct_counter_add:
  "distinct (map fst c) \<Longrightarrow> distinct (map fst (counter_add c x))"
  unfolding counter_add_def by (rule distinct_update)

lemma foldl_counter_add:
  "distinct (map fst c) \<Longrightarrow>
     distinct (map fst (foldl counter_add c xs)) \<and>
     sum_list (map snd (foldl counter_add c xs)) = sum_list (map snd c) + int (length xs)"
  by (induction xs arbitrary: c) (simp_all add: sum_counter_add distinct_counter_add)

lemma map_of_counter_add:
  "map_of (counter_add c x) k = (if k = x then Some (dict_get c x 0 + 1) else map_of c k)"
  unfolding counter_add_def by (simp add: update_conv')

lemma map_of_foldl_counter_add:
  "map_of (foldl counter_add c xs) k =
     (if k \<in> set xs then Some (dict_get c k 0 + int (count_list xs k)) else map_of c k)"
proof (induction xs arbitrary: c)
  case Nil
  then show ?case by simp
next
  case (Cons x xs)
  show ?case
    by (simp add: Cons.IH map_of_counter_add dict_get_def)
qed

lemma map_of_Counter:
  "map_of (Counter xs) k = (if k \<in> set xs then Some (int (count_list xs k)) else None)"
  unfolding Counter_def by (simp add: map_of_foldl_counter_add dict_get_def)




lemma distinct_Counter: "distinct (map fst (Counter fs))"
  unfolding Counter_def using foldl_counter_add [of "[]" fs] by simp


lemma falsy_iter: "\<not> truthy v \<Longrightarrow> py_iter v = Inr es \<Longrightarrow> es = []"
  by (cases v) auto

lemma count_components_cases:
  assumes "count_components_by_file bn v = Inr m"
  shows "(\<not> truthy v \<and> m = []) \<or>
         (\<exists>es. py_iter v = Inr es \<and>
               m = Counter (map (\<lambda>e. bn (entry_path e)) (filter usable_entry es)))"
proof (cases "truthy v")
  case False
  with assms show ?thesis by (simp add: count_components_by_file_def)
next
  case True
  with assms obtain es fs where es: "py_iter v = Inr es"
    and fs: "collect_files bn [] es = Inr fs" and m: "m = Counter fs"
    by (auto simp: count_components_by_file_def split: sum.splits)
  from collect_files_eq [OF fs] es m show ?thesis by simp
qed

lemma count_components_iter:
  assumes "count_components_by_file bn v = Inr m" and "py_iter v = Inr es"
  shows "m = Counter (map (\<lambda>e. bn (entry_path e)) (filter usable_entry es))"
  using count_components_cases [OF assms(1)] assms(2) falsy_iter [of v es]
  by (auto simp: Counter_def)




text \<open>
  Claim C9. Every value of the dictionary the Component Counter returns is strictly
  positive, its keys are distinct, and a name is a key if and only if some usable entry
  contributed it; the value is the number of the entries that did.
\<close>

theorem counts_positive:
  assumes "count_components_by_file bn v = Inr m"
  shows "(\<forall>k n. map_of m k = Some n \<longrightarrow> 0 < n) \<and>
         (\<forall>kn\<in>set m. 0 < snd kn) \<and>
         distinct (map fst m) \<and>
         (\<forall>es. py_iter v = Inr es \<longrightarrow>
            (\<forall>k. k \<in> fst ` set m \<longleftrightarrow> (\<exists>e\<in>set es. usable_entry e \<and> bn (entry_path e) = k)) \<and>
            (\<forall>k n. map_of m k = Some n \<longrightarrow>
               n = int (length (filter (\<lambda>e. usable_entry e \<and> bn (entry_path e) = k) es))))"
proof -
  have "Counter [] = []" by (simp add: Counter_def)
  with count_components_cases [OF assms] obtain fs where m: "m = Counter fs"
    by metis
  have pos: "0 < n" if "map_of m k = Some n" for k n
  proof -
    from that have "k \<in> set fs" and "n = int (count_list fs k)"
      unfolding m by (auto simp: map_of_Counter split: if_splits)
    with count_list_0_iff [of fs k] show ?thesis by simp
  qed
  have dist: "distinct (map fst m)" unfolding m by (rule distinct_Counter)
  have pos': "0 < snd kn" if "kn \<in> set m" for kn
  proof -
    from that dist have "map_of m (fst kn) = Some (snd kn)" by simp
    then show ?thesis by (rule pos)
  qed
  have keys: "(k \<in> fst ` set m \<longleftrightarrow> (\<exists>e\<in>set es. usable_entry e \<and> bn (entry_path e) = k))"
    and cnt: "map_of m k = Some n \<Longrightarrow>
       n = int (length (filter (\<lambda>e. usable_entry e \<and> bn (entry_path e) = k) es))"
    if es: "py_iter v = Inr es" for es k n
  proof -
    let ?fs = "map (\<lambda>e. bn (entry_path e)) (filter usable_entry es)"
    from count_components_iter [OF assms es] have m': "m = Counter ?fs" .
    have "k \<in> fst ` set m \<longleftrightarrow> map_of m k \<noteq> None"
      by (simp add: map_of_eq_None_iff)
    also have "\<dots> \<longleftrightarrow> k \<in> set ?fs" unfolding m' by (simp add: map_of_Counter)
    also have "\<dots> \<longleftrightarrow> (\<exists>e\<in>set es. usable_entry e \<and> bn (entry_path e) = k)" by auto
    finally show "k \<in> fst ` set m \<longleftrightarrow> (\<exists>e\<in>set es. usable_entry e \<and> bn (entry_path e) = k)" .
    have cl: "count_list (map f xs) k = length (filter (\<lambda>e. f e = k) xs)" for f :: "json \<Rightarrow> string" and xs
      by (induction xs) auto
    assume "map_of m k = Some n"
    then have "n = int (count_list ?fs k)"
      unfolding m' by (auto simp: map_of_Counter split: if_splits)
    then show "n = int (length (filter (\<lambda>e. usable_entry e \<and> bn (entry_path e) = k) es))"
      by (simp add: cl)
  qed
  from pos pos' dist keys cnt show ?thesis by blast
qed

theorem counts_positive_witness:
  "count_components_by_file posix_basename
     (JList [JDict [(''file'', JStr ''lib/nema17.stl'')], JInt 7,
             JDict [(''file'', JStr ''laser.stl'')], JDict [(''file'', JStr ''nema17.stl'')]])
     = Inr [(''nema17.stl'', 2), (''laser.stl'', 1)] \<and>
   map_of [(''nema17.stl'', 2::int), (''laser.stl'', 1)] ''nema17.stl'' = Some 2 \<and>
   (0::int) < 2 \<and>
   distinct (map fst [(''nema17.stl'', 2::int), (''laser.stl'', 1)])"
proof -
  have e: "count_components_by_file posix_basename
     (JList [JDict [(''file'', JStr ''lib/nema17.stl'')], JInt 7,
             JDict [(''file'', JStr ''laser.stl'')], JDict [(''file'', JStr ''nema17.stl'')]])
     = Inr [(''nema17.stl'', 2), (''laser.stl'', 1)]"
    by code_simp
  from counts_positive [OF e] e show ?thesis by simp
qed

section \<open>Component identifiers and column names\<close>

lemma rfind_from_absent: "c \<notin> set xs \<Longrightarrow> rfind_from c xs i found = found"
  by (induction xs arbitrary: i found) auto

lemma rfind_from_last:
  "c \<notin> set f \<Longrightarrow> rfind_from c (d @ c # f) i found = i + int (length d)"
proof (induction d arbitrary: i found)
  case Nil
  then show ?case by (simp add: rfind_from_absent)
next
  case (Cons x d)
  from Cons.IH [OF Cons.prems] show ?case by simp
qed

lemma posix_basename_no_sep: "CHR ''/'' \<notin> set p \<Longrightarrow> posix_basename p = p"
  by (simp add: posix_basename_def rfind_def rfind_from_absent)

lemma posix_basename_last_segment:
  assumes "CHR ''/'' \<notin> set f"
  shows "posix_basename (d @ CHR ''/'' # f) = f"
proof -
  have "nat (int (length d) + 1) = Suc (length d)" by arith
  with assms show ?thesis
    by (simp add: posix_basename_def rfind_def rfind_from_last)
qed

text \<open>
  Claim C2. On a POSIX host the identifier of \<open>a/b/c.stl\<close> is \<open>c.stl\<close>, but a path
  written with backslashes (character \<open>0x5C\<close>) is kept whole: \<open>posixpath.basename\<close>
  splits at forward slashes only, so the extraction depends on the separator.
\<close>

theorem posix_basename_keeps_backslashes:
  "count_components_by_file posix_basename (JList [JDict [(''file'', JStr ''a/b/c.stl'')]])
     = Inr [(''c.stl'', 1)] \<and>
   count_components_by_file posix_basename
     (JList [JDict [(''file'', JStr (''a'' @ [CHR 0x5C] @ ''b'' @ [CHR 0x5C] @ ''c.stl''))]])
     = Inr [(''a'' @ [CHR 0x5C] @ ''b'' @ [CHR 0x5C] @ ''c.stl'', 1)] \<and>
   ''a'' @ [CHR 0x5C] @ ''b'' @ [CHR 0x5C] @ ''c.stl'' \<noteq> ''c.stl''"
  by code_simp

lemma replace_from_char:
  "replace_from [c] [d] 0 s = map (\<lambda>x. if x = c then d else x) s"
  by (induction s) auto

lemma str_replace_char: "str_replace [c] [d] s = map (\<lambda>x. if x = c then d else x) s"
  by (simp add: str_replace_def replace_from_char)

lemma col_name_map: "col_name f = ''component_'' @ map sanitize_char f"
  by (simp add: col_name_def str_replace_char sanitize_char_def)

lemma sanitize_char_eq:
  "sanitize_char x = sanitize_char y \<longleftrightarrow>
     x = y \<or> (x \<in> placeholder_chars \<and> y \<in> placeholder_chars)"
  by (auto simp: sanitize_char_def placeholder_chars_def)

text \<open>
  Claim C3, as amended. Two identifiers get the same column name exactly when they have
  the same length and, at every position, they agree or both have one of the characters
  period, space, hyphen, underscore. So distinct identifiers get distinct column names
  unless they differ at such positions only.
\<close>

theorem col_name_eq_iff: "col_name a = col_name b \<longleftrightarrow> same_up_to_placeholders a b"
proof -
  have "col_name a = col_name b \<longleftrightarrow> map sanitize_char a = map sanitize_char b"
    by (simp add: col_name_map)
  also have "\<dots> \<longleftrightarrow> list_all2 (\<lambda>x y. sanitize_char x = sanitize_char y) a b"
    by (simp add: list.rel_map list.rel_eq [symmetric] del: list.rel_eq)
  finally show ?thesis
    by (simp add: same_up_to_placeholders_def sanitize_char_eq)
qed

theorem col_name_eq_iff_witness:
  "col_name ''a b.stl'' = col_name ''a-b_stl'' \<and> same_up_to_placeholders ''a b.stl'' ''a-b_stl'' \<and>
   col_name ''a.stl'' \<noteq> col_name ''b.stl'' \<and> \<not> same_up_to_placeholders ''a.stl'' ''b.stl''"
  using col_name_eq_iff [of "''a b.stl''" "''a-b_stl''"] col_name_eq_iff [of "''a.stl''" "''b.stl''"]
  by (simp add: same_up_to_placeholders_def placeholder_chars_def)

text \<open>
  Claim C3 as stated fails: a document that references \<open>a-b.stl\<close> and \<open>a_b.stl\<close> puts
  both in the universe, and they are distinct with one column name.
\<close>

theorem col_name_not_injective:
  "''a-b.stl'' \<noteq> ''a_b.stl'' \<and> col_name ''a-b.stl'' = col_name ''a_b.stl'' \<and>
   (case analyze_setups_folder posix_basename ''./setups''
           (Some [(''s.json'', Document (JDict [(''uc2_components'',
               JList [JDict [(''file'', JStr ''a-b.stl'')], JDict [(''file'', JStr ''a_b.stl'')]])]))]) of
      Inl e \<Rightarrow> False
    | Inr (lg, setups, files) \<Rightarrow> files = {''a-b.stl'', ''a_b.stl''})"
  by code_simp

section \<open>Properties of the Metadata Extractor and of the scanner's loop body\<close>

lemma entry_file_total:
  "\<not> raising_entry e \<Longrightarrow> \<exists>r. entry_file bn e = Inr r"
  by (cases e) (auto split: option.splits json.splits)

lemma entry_file_raises:
  "raising_entry e \<Longrightarrow> entry_file bn e = Inl TypeError"
  by (cases e) (auto split: option.splits json.splits)

lemma collect_files_total:
  "\<forall>e\<in>set xs. \<not> raising_entry e \<Longrightarrow> \<exists>fs. collect_files bn acc xs = Inr fs"
proof (induction xs arbitrary: acc)
  case Nil
  then show ?case by simp
next
  case (Cons x xs)
  from Cons.prems obtain r where r: "entry_file bn x = Inr r"
    using entry_file_total [of x bn] by auto
  from Cons.prems have rest: "\<forall>e\<in>set xs. \<not> raising_entry e" by simp
  show ?case
  proof (cases r)
    case None
    with r Cons.IH [OF rest, of acc] show ?thesis by simp
  next
    case (Some f)
    with r Cons.IH [OF rest, of "acc @ [f]"] show ?thesis by simp
  qed
qed

lemma collect_files_raises:
  "\<exists>e\<in>set xs. raising_entry e \<Longrightarrow> collect_files bn acc xs = Inl TypeError"
proof (induction xs arbitrary: acc)
  case Nil
  then show ?case by simp
next
  case (Cons x xs)
  show ?case
  proof (cases "raising_entry x")
    case True
    then show ?thesis by (simp add: entry_file_raises)
  next
    case False
    with Cons.prems have rest: "\<exists>e\<in>set xs. raising_entry e" by simp
    from False obtain r where r: "entry_file bn x = Inr r"
      using entry_file_total [of x bn] by auto
    show ?thesis
    proof (cases r)
      case None
      with r Cons.IH [OF rest, of acc] show ?thesis by simp
    next
      case (Some f)
      with r Cons.IH [OF rest, of "acc @ [f]"] show ?thesis by simp
    qed
  qed
qed

lemma count_components_list_total:
  "\<forall>e\<in>set xs. \<not> raising_entry e \<Longrightarrow> \<exists>m. count_components_by_file bn (JList xs) = Inr m"
  using collect_files_total [of xs bn "[]"]
  by (auto simp: count_components_by_file_def)

lemma count_components_list_raises:
  "\<exists>e\<in>set xs. raising_entry e \<Longrightarrow> count_components_by_file bn (JList xs) = Inl TypeError"
  using collect_files_raises [of xs bn "[]"]
  by (auto simp: count_components_by_file_def)

lemma process_document_total_components:
  assumes "process_document bn (JDict d) fname = Inr s"
  shows "py_len (dict_get d ''uc2_components'' (JList [])) = Inr (total_components s)"
  using assms
  by (auto simp: process_document_def metadata.defs setup_data.defs split: sum.splits)

lemma process_document_no_len:
  assumes "py_len (dict_get d ''uc2_components'' (JList [])) = Inl e"
  shows "process_document bn (JDict d) fname = Inl e"
  using assms by (simp add: process_document_def)

lemma process_document_list:
  assumes "dict_get d ''uc2_components'' (JList []) = JList xs"
  shows "process_document bn (JDict d) fname =
           (case count_components_by_file bn (JList xs) of
              Inl e \<Rightarrow> Inl e
            | Inr m \<Rightarrow> Inr (metadata.extend
                 (\<lparr>filename = fname,
                   name = dict_get d ''name'' (JStr []),
                   uc2_verified = dict_get d ''uc2_verified'' (JBool False),
                   collection = dict_get d ''collection'' (JStr []),
                   author = dict_get d ''author'' (JStr []),
                   github_link = dict_get d ''github_link'' (JStr []),
                   description = dict_get d ''description'' (JStr []),
                   category = dict_get d ''category'' (JStr []),
                   version = dict_get d ''version'' (JStr []),
                   createdAt = dict_get d ''createdAt'' (JStr []),
                   total_components = int (length xs)\<rparr>) (setup_data.fields m)))"
  using assms by (simp add: process_document_def split: sum.splits)

text \<open>
  Claim C4, as amended. For a document that is a dictionary: when the key
  \<open>uc2_components\<close> is absent the scanner sets \<open>total_components\<close> to 0; when its
  value is a list, the record the scanner builds has \<open>total_components\<close> equal to the
  length of the list, and the scanner builds one whenever no entry of the list makes
  the counter raise; when its value is a string or a dictionary the scanner sets
  \<open>total_components\<close> to the number of its characters or of its keys.
\<close>

theorem total_components_is_len:
  "(map_of d ''uc2_components'' = None \<longrightarrow>
      (\<exists>s. process_document bn (JDict d) fname = Inr s \<and> total_components s = 0
           \<and> component_counts s = [])) \<and>
   (\<forall>xs. map_of d ''uc2_components'' = Some (JList xs) \<longrightarrow>
      (\<forall>s. process_document bn (JDict d) fname = Inr s \<longrightarrow>
           total_components s = int (length xs)) \<and>
      ((\<forall>e\<in>set xs. \<not> raising_entry e) \<longrightarrow>
         (\<exists>s. process_document bn (JDict d) fname = Inr s \<and>
              total_components s = int (length xs)))) \<and>
   (\<forall>str. map_of d ''uc2_components'' = Some (JStr str) \<longrightarrow>
      (\<exists>s. process_document bn (JDict d) fname = Inr s \<and>
           total_components s = int (length str))) \<and>
   (\<forall>kvs. map_of d ''uc2_components'' = Some (JDict kvs) \<longrightarrow>
      (\<exists>s. process_document bn (JDict d) fname = Inr s \<and>
           total_components s = int (card (fst ` set kvs))))"
proof (intro conjI allI impI)
  assume "map_of d ''uc2_components'' = None"
  then have "dict_get d ''uc2_components'' (JList []) = JList []" by (simp add: dict_get_def)
  from process_document_list [OF this, of bn fname]
  show "\<exists>s. process_document bn (JDict d) fname = Inr s \<and> total_components s = 0
           \<and> component_counts s = []"
    by (simp add: count_components_by_file_def metadata.defs setup_data.defs)
next
  fix xs assume "map_of d ''uc2_components'' = Some (JList xs)"
  then have g: "dict_get d ''uc2_components'' (JList []) = JList xs" by (simp add: dict_get_def)
  {
    fix s assume "process_document bn (JDict d) fname = Inr s"
    with process_document_list [OF g, of bn fname]
    show "total_components s = int (length xs)"
      by (auto simp: metadata.defs setup_data.defs split: sum.splits)
  next
    assume "\<forall>e\<in>set xs. \<not> raising_entry e"
    from count_components_list_total [OF this, of bn] obtain m
      where "count_components_by_file bn (JList xs) = Inr m" by blast
    with process_document_list [OF g, of bn fname]
    show "\<exists>s. process_document bn (JDict d) fname = Inr s \<and>
              total_components s = int (length xs)"
      by (simp add: metadata.defs setup_data.defs)
  }
next
  fix str assume "map_of d ''uc2_components'' = Some (JStr str)"
  then have g: "dict_get d ''uc2_components'' (JList []) = JStr str" by (simp add: dict_get_def)
  have nr: "\<forall>e\<in>set (map (\<lambda>c. JStr [c]) str). \<not> raising_entry e" by auto
  from collect_files_total [OF nr, of bn "[]"] obtain fs
    where "collect_files bn [] (map (\<lambda>c. JStr [c]) str) = Inr fs" by blast
  with g show "\<exists>s. process_document bn (JDict d) fname = Inr s \<and>
           total_components s = int (length str)"
    by (simp add: process_document_def count_components_by_file_def
          metadata.defs setup_data.defs)
next
  fix kvs assume "map_of d ''uc2_components'' = Some (JDict kvs)"
  then have g: "dict_get d ''uc2_components'' (JList []) = JDict kvs" by (simp add: dict_get_def)
  let ?es = "map JStr (rev (remdups (rev (map fst kvs))))"
  have nr: "\<forall>e\<in>set ?es. \<not> raising_entry e" by auto
  from collect_files_total [OF nr, of bn "[]"] obtain fs
    where "collect_files bn [] ?es = Inr fs" by blast
  moreover have "length (remdups (map fst kvs)) = card (fst ` set kvs)"
    by (simp add: length_remdups_card_conv)
  ultimately show "\<exists>s. process_document bn (JDict d) fname = Inr s \<and>
           total_components s = int (card (fst ` set kvs))"
    using g
    by (simp add: process_document_def count_components_by_file_def
          metadata.defs setup_data.defs)
qed

theorem total_components_is_len_witness:
  "(case process_document posix_basename
           (JDict [(''uc2_components'', JList [JDict [(''file'', JStr ''x.stl'')], JNull])]) ''a.json'' of
      Inl e \<Rightarrow> False
    | Inr s \<Rightarrow> total_components s = 2) \<and>
   (case process_document posix_basename (JDict [(''name'', JStr ''n'')]) ''a.json'' of
      Inl e \<Rightarrow> False
    | Inr s \<Rightarrow> total_components s = 0)"
  using total_components_is_len
          [of "[(''uc2_components'', JList [JDict [(''file'', JStr ''x.stl'')], JNull])]"
              posix_basename "''a.json''"]
        total_components_is_len [of "[(''name'', JStr ''n'')]" posix_basename "''a.json''"]
  by auto

text \<open>
  Claim C4 as stated fails where the value is not a list: for the string \<open>abc\<close> the
  scanner sets \<open>total_components\<close> to 3, not to 0.
\<close>

theorem total_components_not_zero_for_string:
  "map_sum id total_components
     (process_document posix_basename (JDict [(''uc2_components'', JStr ''abc'')]) ''a.json'')
     = Inr 3"
  by code_simp

text \<open>
  A value with no length at \<open>uc2_components\<close> (\<open>null\<close>, a boolean, a number): the
  counter's own guard would return the empty dictionary for \<open>null\<close>, but \<open>len\<close> is
  called before the counter and raises, and one such document ends the scan of the
  folder.
\<close>

lemma null_components_raise:
  "count_components_by_file bn JNull = Inr [] \<and>
   process_document bn (JDict [(''uc2_components'', JNull)]) fname = Inl TypeError \<and>
   (\<exists>e. scan_files bn folder st
          ((fname, Document (JDict [(''uc2_components'', JNull)])) # rest) = Inl e)"
  by (simp add: count_components_by_file_def process_document_def dict_get_def)

text \<open>
  Claim C5, as amended. For every document that is a dictionary and every file name,
  the extractor returns a record whose \<open>filename\<close> is the name given, whose
  \<open>total_components\<close> is 0, and in which every other field holds the default (the
  empty string, \<open>False\<close> for \<open>uc2_verified\<close>) when the document lacks the key, and
  the document's value, whatever it is, when it has the key.
\<close>

theorem metadata_defaults:
  "\<exists>m. extract_setup_metadata (JDict d) fname = Inr m \<and>
       filename m = fname \<and> total_components m = 0 \<and>
       (\<forall>(key, field, dflt)\<in>set json_fields.
          (map_of d key = None \<longrightarrow> field m = dflt) \<and>
          (\<forall>v. map_of d key = Some v \<longrightarrow> field m = v))"
  by (simp add: json_fields_def dict_get_def)

theorem metadata_defaults_witness:
  "(case extract_setup_metadata (JDict [(''author'', JStr ''bob'')]) ''a.json'' of
      Inl e \<Rightarrow> False
    | Inr m \<Rightarrow> filename m = ''a.json'' \<and> author m = JStr ''bob'' \<and> name m = JStr [] \<and>
        uc2_verified m = JBool False \<and> total_components m = 0)"
  using metadata_defaults [of "[(''author'', JStr ''bob'')]" "''a.json''"]
  by (auto simp: json_fields_def)

text \<open>
  Claim C5 as stated fails: a key that is present with \<open>null\<close>, or with a value of
  another type, is copied as it is.
\<close>

theorem metadata_null_kept:
  "map_sum id name (extract_setup_metadata (JDict [(''name'', JNull)]) ''a.json'') = Inr JNull \<and>
   map_sum id uc2_verified
     (extract_setup_metadata (JDict [(''uc2_verified'', JStr ''yes'')]) ''a.json'')
     = Inr (JStr ''yes'')"
  by code_simp

section \<open>The columns of the table\<close>

lemma first_seen_step_absorb:
  "set cs \<subseteq> set acc \<Longrightarrow>
     foldl (\<lambda>seen x. if x \<in> set seen then seen else seen @ [x]) acc cs = acc"
  by (induction cs arbitrary: acc) auto

lemma first_seen_step_prefix:
  "set cs \<inter> set ks = {} \<Longrightarrow>
     foldl (\<lambda>seen x. if x \<in> set seen then seen else seen @ [x]) (ks @ acc) cs =
       ks @ foldl (\<lambda>seen x. if x \<in> set seen then seen else seen @ [x]) acc cs"
proof (induction cs arbitrary: acc)
  case Nil
  then show ?case by simp
next
  case (Cons c cs)
  from Cons.prems have c: "c \<notin> set ks" and rest: "set cs \<inter> set ks = {}" by auto
  show ?case
  proof (cases "c \<in> set acc")
    case True
    with c Cons.IH [OF rest, of acc] show ?thesis by simp
  next
    case False
    with c Cons.IH [OF rest, of "acc @ [c]"] show ?thesis by simp
  qed
qed

lemma first_seen_step_distinct:
  "distinct acc \<Longrightarrow> distinct cs \<Longrightarrow> set cs \<inter> set acc = {} \<Longrightarrow>
     foldl (\<lambda>seen x. if x \<in> set seen then seen else seen @ [x]) acc cs = acc @ cs"
proof (induction cs arbitrary: acc)
  case Nil
  then show ?case by simp
next
  case (Cons c cs)
  from Cons.prems have "c \<notin> set acc" by auto
  moreover from Cons.prems
  have "foldl (\<lambda>seen x. if x \<in> set seen then seen else seen @ [x]) (acc @ [c]) cs
          = (acc @ [c]) @ cs"
    by (intro Cons.IH) auto
  ultimately show ?case by simp
qed

lemma first_seen_distinct: "distinct cs \<Longrightarrow> first_seen cs = cs"
  using first_seen_step_distinct [of "[]" cs] by (simp add: first_seen_def)

lemma set_first_seen_step:
  "set (foldl (\<lambda>seen x. if x \<in> set seen then seen else seen @ [x]) acc cs) = set acc \<union> set cs"
  by (induction cs arbitrary: acc) auto

lemma distinct_first_seen_step:
  "distinct acc \<Longrightarrow>
     distinct (foldl (\<lambda>seen x. if x \<in> set seen then seen else seen @ [x]) acc cs)"
  by (induction cs arbitrary: acc) auto

lemma set_first_seen: "set (first_seen cs) = set cs"
  by (simp add: first_seen_def set_first_seen_step)

lemma distinct_first_seen: "distinct (first_seen cs)"
  by (simp add: first_seen_def distinct_first_seen_step)

lemma col_name_not_metadata: "col_name f \<notin> set metadata_columns"
  by (simp add: col_name_def metadata_columns_def)

lemma keys_metadata_row: "map fst (metadata_row s) = metadata_columns"
  by (simp add: metadata_row_def metadata_columns_def)

lemma keys_add_columns:
  "map fst (foldl (add_component_column s) r fs) =
     foldl (\<lambda>seen x. if x \<in> set seen then seen else seen @ [x]) (map fst r) (map col_name fs)"
proof (induction fs arbitrary: r)
  case Nil
  then show ?case by simp
next
  case (Cons f fs)
  have "map fst (add_component_column s r f) =
          (if col_name f \<in> set (map fst r) then map fst r else map fst r @ [col_name f])"
    by (simp add: add_component_column_def update_keys)
  with Cons.IH [of "add_component_column s r f"] show ?case by simp
qed

lemma keys_build_row:
  "map fst (build_row files s) =
     metadata_columns @ first_seen (map col_name (sorted_list_of_set files))"
proof -
  have "set (map col_name (sorted_list_of_set files)) \<inter> set metadata_columns = {}"
    using col_name_not_metadata by auto
  from first_seen_step_prefix [OF this, of "[]"] show ?thesis
    by (simp add: build_row_def keys_add_columns keys_metadata_row first_seen_def)
qed

lemma distinct_keys_build_row: "distinct (map fst (build_row files s))"
proof -
  have "distinct metadata_columns" by (simp add: metadata_columns_def)
  moreover have "set metadata_columns \<inter> set (first_seen (map col_name (sorted_list_of_set files))) = {}"
    using col_name_not_metadata by (auto simp: set_first_seen)
  ultimately show ?thesis by (simp add: keys_build_row distinct_first_seen)
qed

lemma first_seen_same_keys:
  assumes "rows \<noteq> []" and "\<forall>r\<in>set rows. map fst r = ks" and "distinct ks"
  shows "first_seen (concat (map (map fst) rows)) = ks"
proof -
  from assms(1) obtain r rest where rows: "rows = r # rest" by (cases rows) auto
  with assms(2) have r: "map fst r = ks" and rest: "\<forall>r\<in>set rest. map fst r = ks" by auto
  have "set (concat (map (map fst) rest)) \<subseteq> set ks" using rest by auto
  from first_seen_step_absorb [OF this] first_seen_step_distinct [of "[]" ks] assms(3) r rows
  show ?thesis by (simp add: first_seen_def)
qed

lemma columns_DataFrame_build_row:
  assumes "setups \<noteq> []"
  shows "columns (DataFrame (map (build_row files) setups)) =
           metadata_columns @ first_seen (map col_name (sorted_list_of_set files))"
proof -
  let ?ks = "metadata_columns @ first_seen (map col_name (sorted_list_of_set files))"
  have "first_seen (concat (map (map fst) (map (build_row files) setups))) = ?ks"
  proof (rule first_seen_same_keys)
    show "map (build_row files) setups \<noteq> []" using assms by simp
    show "\<forall>r\<in>set (map (build_row files) setups). map fst r = ?ks"
      by (auto simp: keys_build_row)
    show "distinct ?ks" using distinct_keys_build_row [of files undefined]
      by (simp add: keys_build_row)
  qed
  then show ?thesis by (simp add: DataFrame_def Let_def)
qed

lemma columns_sort_values: "columns (sort_values col df) = columns df"
  by (simp add: sort_values_def)

text \<open>
  Claim C10, as amended. The columns of the written table are the eleven metadata
  fields in the order \<open>filename\<close>, \<open>name\<close>, \<open>uc2_verified\<close>, \<open>collection\<close>,
  \<open>author\<close>, \<open>github_link\<close>, \<open>description\<close>, \<open>category\<close>, \<open>version\<close>,
  \<open>createdAt\<close>, \<open>total_components\<close>, followed by the column names of the universe's
  members taken in ascending order of the identifiers, a name that occurs again being
  left out; when the column names of the members are pairwise distinct this is one
  column per member.
\<close>

theorem table_columns:
  assumes "setups \<noteq> []"
  shows "\<exists>df. written (create_csv_database setups files output_file) = Some (output_file, df) \<and>
           columns df =
             [''filename'', ''name'', ''uc2_verified'', ''collection'', ''author'', ''github_link'',
              ''description'', ''category'', ''version'', ''createdAt'', ''total_components'']
             @ first_seen (map col_name (sorted_list_of_set files)) \<and>
           (inj_on col_name files \<longrightarrow>
              columns df =
                [''filename'', ''name'', ''uc2_verified'', ''collection'', ''author'', ''github_link'',
                 ''description'', ''category'', ''version'', ''createdAt'', ''total_components'']
                @ map col_name (sorted_list_of_set files))"
proof -
  have inj: "first_seen (map col_name (sorted_list_of_set files)) =
               map col_name (sorted_list_of_set files)" if "inj_on col_name files"
  proof (cases "finite files")
    case True
    with that have "distinct (map col_name (sorted_list_of_set files))"
      by (simp add: distinct_map)
    then show ?thesis by (rule first_seen_distinct)
  next
    case False
    then show ?thesis by (simp add: first_seen_def)
  qed
  from assms inj show ?thesis
    by (simp add: create_csv_database_def Let_def columns_sort_values
          columns_DataFrame_build_row metadata_columns_def)
qed

theorem table_columns_witness:
  "(case written (create_csv_database
        [\<lparr>filename = ''s.json'', name = JStr [], uc2_verified = JBool False,
          collection = JStr [], author = JStr [], github_link = JStr [],
          description = JStr [], category = JStr [], version = JStr [],
          createdAt = JStr [], total_components = 2,
          component_counts = [(''lens.stl'', 1), (''cube.stl'', 1)]\<rparr>]
        {''lens.stl'', ''cube.stl''} ''out.csv'') of
      None \<Rightarrow> False
    | Some (f, df) \<Rightarrow> columns df =
        [''filename'', ''name'', ''uc2_verified'', ''collection'', ''author'', ''github_link'',
         ''description'', ''category'', ''version'', ''createdAt'', ''total_components'',
         ''component_cube_stl'', ''component_lens_stl''])"
proof -
  let ?s = "\<lparr>filename = ''s.json'', name = JStr [], uc2_verified = JBool False,
          collection = JStr [], author = JStr [], github_link = JStr [],
          description = JStr [], category = JStr [], version = JStr [],
          createdAt = JStr [], total_components = 2,
          component_counts = [(''lens.stl'', 1), (''cube.stl'', 1)]\<rparr>"
  have ne: "[?s] \<noteq> []" by simp
  have cols: "first_seen (map col_name (sorted_list_of_set {''lens.stl'', ''cube.stl''}))
                = [''component_cube_stl'', ''component_lens_stl'']"
    by code_simp
  from table_columns [OF ne, of "{''lens.stl'', ''cube.stl''}" "''out.csv''"] cols
  show ?thesis by auto
qed

text \<open>
  Claim C10 as stated fails: a universe of two members whose column names coincide
  gives one component column.
\<close>

theorem colliding_columns_merge:
  "(case analyze_setups_folder posix_basename ''./setups''
           (Some [(''s.json'', Document (JDict [(''uc2_components'',
               JList [JDict [(''file'', JStr ''a-b.stl'')], JDict [(''file'', JStr ''a_b.stl'')]])]))]) of
      Inl e \<Rightarrow> False
    | Inr (lg, setups, files) \<Rightarrow>
        files = {''a-b.stl'', ''a_b.stl''} \<and> card files = 2 \<and>
        map_option (columns \<circ> snd) (written (create_csv_database setups files ''setups_analysis.csv''))
          = Some [''filename'', ''name'', ''uc2_verified'', ''collection'', ''author'',
                  ''github_link'', ''description'', ''category'', ''version'', ''createdAt'',
                  ''total_components'', ''component_a_b_stl''])"
  by code_simp

section \<open>The scan of a folder and the empty corpus\<close>

lemma load_json_file_data: "snd (load_json_file p content) = file_data content"
  by (cases content) simp_all

lemma scan_files_Cons:
  "scan_files bn folder st (x # rest) =
     (case file_setup bn x of
        Inl e \<Rightarrow> Inl e
      | Inr None \<Rightarrow>
          scan_files bn folder
            (st\<lparr>scan_log := scan_log st @ [(INFO, Processing (fst x))]
                   @ fst (load_json_file (folder, fst x) (snd x))\<rparr>) rest
      | Inr (Some s) \<Rightarrow>
          scan_files bn folder
            (st\<lparr>scan_log := scan_log st @ [(INFO, Processing (fst x))]
                   @ fst (load_json_file (folder, fst x) (snd x)),
                all_component_files := all_component_files st \<union> set (map fst (component_counts s)),
                setup_data_list := setup_data_list st @ [s]\<rparr>) rest)"
  using load_json_file_data [of "(folder, fst x)" "snd x"]
  by (cases x; cases "load_json_file (folder, fst x) (snd x)")
     (auto simp: file_setup_def Let_def split: sum.splits)

lemma scan_files_ok:
  assumes "\<forall>x\<in>set fs. \<exists>r. file_setup bn x = Inr r"
  shows "\<exists>st'. scan_files bn folder st fs = Inr st' \<and>
           setup_data_list st' = setup_data_list st @ loaded_setups bn fs \<and>
           all_component_files st' = all_component_files st \<union> universe bn fs"
  using assms
proof (induction fs arbitrary: st)
  case Nil
  then show ?case by (simp add: loaded_setups_def universe_def)
next
  case (Cons x fs)
  from Cons.prems obtain r where r: "file_setup bn x = Inr r" by auto
  from Cons.prems have rest: "\<forall>x\<in>set fs. \<exists>r. file_setup bn x = Inr r" by simp
  show ?case
  proof (cases r)
    case None
    let ?st = "st\<lparr>scan_log := scan_log st @ [(INFO, Processing (fst x))]
                   @ fst (load_json_file (folder, fst x) (snd x))\<rparr>"
    from Cons.IH [OF rest, of ?st] r None show ?thesis
      by (simp add: scan_files_Cons loaded_setups_def universe_def file_setups_def
            del: scan_files.simps)
  next
    case (Some s)
    let ?st = "st\<lparr>scan_log := scan_log st @ [(INFO, Processing (fst x))]
                   @ fst (load_json_file (folder, fst x) (snd x)),
                all_component_files := all_component_files st \<union> set (map fst (component_counts s)),
                setup_data_list := setup_data_list st @ [s]\<rparr>"
    from Cons.IH [OF rest, of ?st] r Some show ?thesis
      by (auto simp: scan_files_Cons loaded_setups_def universe_def file_setups_def
            simp del: scan_files.simps)
  qed
qed

lemma scan_files_raises:
  assumes "\<exists>x\<in>set fs. \<exists>e. file_setup bn x = Inl e"
  shows "\<exists>e. scan_files bn folder st fs = Inl e"
  using assms
proof (induction fs arbitrary: st)
  case Nil
  then show ?case by simp
next
  case (Cons x fs)
  show ?case
  proof (cases "file_setup bn x")
    case (Inl e)
    then show ?thesis by (simp add: scan_files_Cons del: scan_files.simps)
  next
    case (Inr r)
    with Cons.prems have "\<exists>x\<in>set fs. \<exists>e. file_setup bn x = Inl e" by auto
    from Cons.IH [OF this] Inr show ?thesis
      by (cases r) (simp_all add: scan_files_Cons del: scan_files.simps)
  qed
qed

lemma analyze_ok:
  assumes "\<forall>x\<in>set fs. \<exists>r. file_setup bn x = Inr r"
  shows "\<exists>lg. analyze_setups_folder bn folder (Some fs)
           = Inr (lg, loaded_setups bn fs, universe bn fs)"
proof -
  from scan_files_ok [OF assms,
      of folder "\<lparr>scan_log = [(INFO, FoundJSONFiles (length fs) folder)],
           setup_data_list = [], all_component_files = {}\<rparr>"]
  show ?thesis by (auto simp: analyze_setups_folder_def)
qed

lemma analyze_raises:
  assumes "\<exists>x\<in>set fs. \<exists>e. file_setup bn x = Inl e"
  shows "\<exists>e. analyze_setups_folder bn folder (Some fs) = Inl e"
proof -
  from scan_files_raises [OF assms,
      of folder "\<lparr>scan_log = [(INFO, FoundJSONFiles (length fs) folder)],
           setup_data_list = [], all_component_files = {}\<rparr>"]
  show ?thesis by (auto simp: analyze_setups_folder_def)
qed

lemma main_ok:
  assumes "\<forall>x\<in>set fs. \<exists>r. file_setup bn x = Inr r"
  shows "output_table (main bn (Some fs)) =
           (if loaded_setups bn fs = [] then None
            else written (create_csv_database (loaded_setups bn fs) (universe bn fs)
                            ''setups_analysis.csv''))"
proof -
  from analyze_ok [OF assms, of "''./setups''"] obtain lg where
    "analyze_setups_folder bn ''./setups'' (Some fs)
       = Inr (lg, loaded_setups bn fs, universe bn fs)" by blast
  then show ?thesis by (simp add: main_def output_table_def Let_def)
qed

lemma main_raises:
  assumes "\<exists>x\<in>set fs. \<exists>e. file_setup bn x = Inl e"
  shows "output_table (main bn (Some fs)) = None"
proof -
  from analyze_raises [OF assms, of "''./setups''"] show ?thesis
    by (auto simp: main_def output_table_def)
qed

lemma set_loaded_setups:
  "set (loaded_setups bn fs) = {s. \<exists>x\<in>set fs. file_setup bn x = Inr (Some s)}"
  by (auto simp: loaded_setups_def file_setups_def split: sum.splits option.splits)

lemma process_document_filename:
  "process_document bn data fname = Inr s \<Longrightarrow> filename s = fname"
  by (cases data)
     (auto simp: process_document_def metadata.defs setup_data.defs split: sum.splits)

lemma file_setup_filename:
  assumes "file_setup bn x = Inr (Some s)"
  shows "filename s = fst x"
proof -
  let ?data = "file_data (snd x)"
  from assms have "process_document bn ?data (fst x) = Inr s"
    by (cases "process_document bn ?data (fst x)")
       (auto simp: file_setup_def Let_def split: if_splits)
  then show ?thesis by (rule process_document_filename)
qed

lemma distinct_loaded_filenames:
  "distinct (map fst fs) \<Longrightarrow> distinct (map filename (loaded_setups bn fs))"
proof (induction fs)
  case Nil
  then show ?case by (simp add: loaded_setups_def)
next
  case (Cons x fs)
  have sub: "filename ` set (loaded_setups bn fs) \<subseteq> fst ` set fs"
    by (auto simp: set_loaded_setups dest!: file_setup_filename)
  from Cons.prems have new: "fst x \<notin> fst ` set fs" and d: "distinct (map fst fs)" by auto
  from new sub have notin: "fst x \<notin> filename ` set (loaded_setups bn fs)" by blast
  have one: "map filename (file_setups bn x) = [] \<or> map filename (file_setups bn x) = [fst x]"
    by (auto simp: file_setups_def split: sum.splits option.splits dest: file_setup_filename)
  have split: "map filename (loaded_setups bn (x # fs)) =
                 map filename (file_setups bn x) @ map filename (loaded_setups bn fs)"
    by (simp add: loaded_setups_def)
  from one show ?case
  proof
    assume "map filename (file_setups bn x) = []"
    with split Cons.IH [OF d] show ?thesis by simp
  next
    assume "map filename (file_setups bn x) = [fst x]"
    with split Cons.IH [OF d] notin show ?thesis by simp
  qed
qed

lemma file_setup_unloadable:
  "snd (load_json_file p (snd x)) = JNull \<Longrightarrow> file_setup bn x = Inr None"
  by (simp add: file_setup_def load_json_file_data)

text \<open>
  Claim C7. Given an empty list, the Table Builder logs an error, writes no file and
  prints nothing, and returns. A missing folder gives the empty list and the empty
  universe, and so does a folder none of whose files can be loaded; the run then logs
  an error and returns without writing or printing.
\<close>

theorem empty_corpus_no_write:
  "create_csv_database [] files output_file =
     \<lparr>logged = [(ERROR, NoSetupData)], written = None, printed = []\<rparr> \<and>
   analyze_setups_folder basename setups_folder None =
     Inr ([(ERROR, FolderNotFound setups_folder)], [], {}) \<and>
   main basename None =
     Inr \<lparr>logged = [(INFO, StartingAnalysis), (ERROR, FolderNotFound ''./setups''),
                     (ERROR, NoValidSetups)],
          written = None, printed = []\<rparr> \<and>
   ((\<forall>x\<in>set fs. snd (load_json_file (setups_folder, fst x) (snd x)) = JNull) \<longrightarrow>
      (\<exists>lg. analyze_setups_folder basename setups_folder (Some fs) = Inr (lg, [], {}))) \<and>
   ((\<forall>x\<in>set fs. snd (load_json_file (''./setups'', fst x) (snd x)) = JNull) \<longrightarrow>
      (\<exists>lg. main basename (Some fs) =
         Inr \<lparr>logged = lg @ [(ERROR, NoValidSetups)], written = None, printed = []\<rparr>))"
proof -
  have 1: "create_csv_database [] files output_file =
     \<lparr>logged = [(ERROR, NoSetupData)], written = None, printed = []\<rparr>"
    by (simp add: create_csv_database_def)
  have 2: "analyze_setups_folder basename setups_folder None =
     Inr ([(ERROR, FolderNotFound setups_folder)], [], {})"
    by (simp add: analyze_setups_folder_def)
  have 3: "main basename None =
     Inr \<lparr>logged = [(INFO, StartingAnalysis), (ERROR, FolderNotFound ''./setups''),
                     (ERROR, NoValidSetups)],
          written = None, printed = []\<rparr>"
    by (simp add: main_def analyze_setups_folder_def)
  have 4: "(\<exists>lg. analyze_setups_folder basename folder (Some fs) = Inr (lg, [], {}))"
    if un: "\<forall>x\<in>set fs. snd (load_json_file (folder, fst x) (snd x)) = JNull" for folder
  proof -
    from un have none: "\<forall>x\<in>set fs. file_setup basename x = Inr None"
      by (auto intro: file_setup_unloadable)
    then have ok: "\<forall>x\<in>set fs. \<exists>r. file_setup basename x = Inr r" by simp
    from none have "loaded_setups basename fs = []"
      by (simp add: loaded_setups_def file_setups_def)
    moreover then have "universe basename fs = {}" by (simp add: universe_def)
    ultimately show ?thesis using analyze_ok [OF ok, of folder] by simp
  qed
  have 5: "\<exists>lg. main basename (Some fs) =
         Inr \<lparr>logged = lg @ [(ERROR, NoValidSetups)], written = None, printed = []\<rparr>"
    if un: "\<forall>x\<in>set fs. snd (load_json_file (''./setups'', fst x) (snd x)) = JNull"
  proof -
    from 4 [OF un] obtain lg where
      "analyze_setups_folder basename ''./setups'' (Some fs) = Inr (lg, [], {})" by blast
    then have "main basename (Some fs) =
        Inr \<lparr>logged = ((INFO, StartingAnalysis) # lg) @ [(ERROR, NoValidSetups)],
             written = None, printed = []\<rparr>"
      by (simp add: main_def)
    then show ?thesis by blast
  qed
  from 1 2 3 4 5 show ?thesis by blast
qed

theorem empty_corpus_no_write_witness:
  "main posix_basename (Some [(''bad.json'', Malformed), (''null.json'', Document JNull)]) =
     Inr \<lparr>logged = [(INFO, StartingAnalysis), (INFO, FoundJSONFiles 2 ''./setups''),
                     (INFO, Processing ''bad.json''),
                     (ERROR, InvalidJSON (''./setups'', ''bad.json'')),
                     (INFO, Processing ''null.json''),
                     (INFO, ProcessedSetups 0), (INFO, UniqueComponents 0),
                     (ERROR, NoValidSetups)],
          written = None, printed = []\<rparr>"
  using empty_corpus_no_write
    [of "{}" "[]" posix_basename "[]" "[(''bad.json'', Malformed), (''null.json'', Document JNull)]"]
  by (simp add: main_def analyze_setups_folder_def)

section \<open>The written table\<close>

lemma sort_key_unique:
  fixes k :: "'a \<Rightarrow> 'b::linorder"
  assumes "set xs = set ys" and "distinct (map k xs)" and "distinct (map k ys)"
  shows "sort_key k xs = sort_key k ys"
proof (rule map_sorted_distinct_set_unique [where f = k])
  from assms(2) have "inj_on k (set xs)" by (simp add: distinct_map)
  with assms(1) show "inj_on k (set (sort_key k xs) \<union> set (sort_key k ys))" by simp
  show "sorted (map k (sort_key k xs))" and "sorted (map k (sort_key k ys))"
    by (rule sorted_sort_key)+
  from assms(2) show "distinct (map k (sort_key k xs))" by (simp add: distinct_map)
  from assms(3) show "distinct (map k (sort_key k ys))" by (simp add: distinct_map)
  from assms(1) show "set (sort_key k xs) = set (sort_key k ys)" by simp
qed

lemma insort_key_map:
  "insort_key k (h x) (map h ys) = map h (insort_key (\<lambda>a. k (h a)) x ys)"
  by (induction ys) auto

lemma sort_key_map: "sort_key k (map h xs) = map h (sort_key (\<lambda>a. k (h a)) xs)"
  by (induction xs) (simp_all add: insort_key_map)

lemma map_of_add_columns:
  "k \<notin> col_name ` set fs \<Longrightarrow>
     map_of (foldl (add_component_column s) r fs) k = map_of r k"
proof (induction fs arbitrary: r)
  case Nil
  then show ?case by simp
next
  case (Cons f fs)
  from Cons.prems have "k \<noteq> col_name f" and rest: "k \<notin> col_name ` set fs" by auto
  then have "map_of (add_component_column s r f) k = map_of r k"
    by (simp add: add_component_column_def update_conv')
  with Cons.IH [OF rest, of "add_component_column s r f"] show ?case by simp
qed

lemma build_row_filename:
  "map_of (build_row files s) ''filename'' = Some (JStr (filename s))"
proof -
  have "''filename'' \<notin> col_name ` set (sorted_list_of_set files)"
    by (auto simp: col_name_def)
  from map_of_add_columns [OF this] show ?thesis
    by (simp add: build_row_def metadata_row_def)
qed

lemma cells_DataFrame_build_row:
  assumes "setups \<noteq> []"
  shows "cells (DataFrame (map (build_row files) setups)) = map (setup_cells files) setups"
  using columns_DataFrame_build_row [OF assms, of files]
  by (simp add: DataFrame_def Let_def setup_cells_def)

lemma filename_of_setup_cells:
  assumes "columns df = metadata_columns @ first_seen (map col_name (sorted_list_of_set files))"
  shows "str_key (cell df (setup_cells files s) ''filename'') = filename s"
proof -
  have "''filename'' \<in> set (columns df)" by (simp add: assms metadata_columns_def)
  then show ?thesis
    by (simp add: cell_def setup_cells_def dict_get_def map_of_zip_map assms [symmetric]
          build_row_filename)
qed

lemma written_table:
  assumes "setups \<noteq> []"
  shows "written (create_csv_database setups files output_file) =
           Some (output_file,
             \<lparr>columns = metadata_columns @ first_seen (map col_name (sorted_list_of_set files)),
              cells = map (setup_cells files) (sort_key filename setups)\<rparr>)"
proof -
  let ?df = "DataFrame (map (build_row files) setups)"
  let ?ks = "metadata_columns @ first_seen (map col_name (sorted_list_of_set files))"
  have cols: "columns ?df = ?ks" by (rule columns_DataFrame_build_row [OF assms])
  have cs: "cells ?df = map (setup_cells files) setups"
    by (rule cells_DataFrame_build_row [OF assms])
  have key: "(\<lambda>s. str_key (cell ?df (setup_cells files s) ''filename'')) = filename"
    by (rule ext) (simp add: filename_of_setup_cells [OF cols])
  have "sort_key (\<lambda>r. str_key (cell ?df r ''filename'')) (map (setup_cells files) setups)
          = map (setup_cells files) (sort_key filename setups)"
    using sort_key_map [of "\<lambda>r. str_key (cell ?df r ''filename'')" "setup_cells files" setups]
    unfolding key by simp
  then have "sort_values ''filename'' ?df =
          \<lparr>columns = ?ks, cells = map (setup_cells files) (sort_key filename setups)\<rparr>"
    using cols cs by (simp add: sort_values_def)
  with assms show ?thesis by (simp add: create_csv_database_def Let_def)
qed

lemma sort_map_key: "sort (map f xs) = map f (sort_key f xs)"
  using sort_key_map [of "\<lambda>x. x" f xs] by simp

lemma output_table_same_files:
  assumes "distinct (map fst fs1)" and "distinct (map fst fs2)" and "set fs1 = set fs2"
  shows "output_table (main bn (Some fs1)) = output_table (main bn (Some fs2))"
proof (cases "\<exists>x\<in>set fs1. \<exists>e. file_setup bn x = Inl e")
  case True
  with assms(3) have "\<exists>x\<in>set fs2. \<exists>e. file_setup bn x = Inl e" by simp
  from main_raises [OF True] main_raises [OF this] show ?thesis by simp
next
  case False
  then have ok1: "\<forall>x\<in>set fs1. \<exists>r. file_setup bn x = Inr r"
    by (metis sum.exhaust)
  with assms(3) have ok2: "\<forall>x\<in>set fs2. \<exists>r. file_setup bn x = Inr r" by simp
  have sets: "set (loaded_setups bn fs1) = set (loaded_setups bn fs2)"
    by (simp add: set_loaded_setups assms(3))
  then have univ: "universe bn fs1 = universe bn fs2" by (simp add: universe_def)
  from sets have empty: "loaded_setups bn fs1 = [] \<longleftrightarrow> loaded_setups bn fs2 = []"
    by (metis set_empty)
  have sorted_eq: "sort_key filename (loaded_setups bn fs1) = sort_key filename (loaded_setups bn fs2)"
    using sets distinct_loaded_filenames [OF assms(1)] distinct_loaded_filenames [OF assms(2)]
    by (rule sort_key_unique)
  show ?thesis
  proof (cases "loaded_setups bn fs1 = []")
    case True
    with empty main_ok [OF ok1] main_ok [OF ok2] show ?thesis by simp
  next
    case False
    with empty have ne2: "loaded_setups bn fs2 \<noteq> []" by simp
    from main_ok [OF ok1] main_ok [OF ok2] False ne2
      written_table [OF False] written_table [OF ne2] univ sorted_eq
    show ?thesis by simp
  qed
qed

lemma output_table_shape:
  assumes "output_table (main bn (Some fs)) = Some (f, df)"
  shows "columns df = metadata_columns @
           first_seen (map col_name (sorted_list_of_set (universe bn fs))) \<and>
         map (\<lambda>r. str_key (cell df r ''filename'')) (cells df)
           = sort (map filename (loaded_setups bn fs))"
proof -
  have ok: "\<forall>x\<in>set fs. \<exists>r. file_setup bn x = Inr r"
  proof (rule ccontr)
    assume "\<not> ?thesis"
    then have "\<exists>x\<in>set fs. \<exists>e. file_setup bn x = Inl e" by (metis sum.exhaust)
    from main_raises [OF this] assms show False by simp
  qed
  from main_ok [OF ok] assms have ne: "loaded_setups bn fs \<noteq> []"
    by (auto split: if_splits)
  let ?ks = "metadata_columns @ first_seen (map col_name (sorted_list_of_set (universe bn fs)))"
  from main_ok [OF ok] assms ne written_table [OF ne, of "universe bn fs" "''setups_analysis.csv''"]
  have df: "df = \<lparr>columns = ?ks,
              cells = map (setup_cells (universe bn fs)) (sort_key filename (loaded_setups bn fs))\<rparr>"
    by simp
  then have cols: "columns df = ?ks" by simp
  from df have "map (\<lambda>r. str_key (cell df r ''filename'')) (cells df)
      = map (\<lambda>s. str_key (cell df (setup_cells (universe bn fs) s) ''filename''))
          (sort_key filename (loaded_setups bn fs))"
    by (simp add: comp_def)
  also have "\<dots> = map filename (sort_key filename (loaded_setups bn fs))"
    by (simp add: filename_of_setup_cells [OF cols])
  finally show ?thesis using cols by (simp add: sort_map_key)
qed

text \<open>
  Claim C8. Two runs on the same files, enumerated in any two orders, write the same
  table or both write none: the rows are those of the loaded documents in ascending
  order of the file names, the component columns follow the ascending order of the
  identifiers of the universe, and so every cell is the same.
\<close>

theorem table_deterministic:
  assumes "distinct (map fst fs1)" and "distinct (map fst fs2)" and "set fs1 = set fs2"
  shows "output_table (main bn (Some fs1)) = output_table (main bn (Some fs2)) \<and>
         (\<forall>f df. output_table (main bn (Some fs1)) = Some (f, df) \<longrightarrow>
            map (\<lambda>r. str_key (cell df r ''filename'')) (cells df)
              = sort (map filename (loaded_setups bn fs1)) \<and>
            sorted (map (\<lambda>r. str_key (cell df r ''filename'')) (cells df)) \<and>
            columns df =
              [''filename'', ''name'', ''uc2_verified'', ''collection'', ''author'',
               ''github_link'', ''description'', ''category'', ''version'', ''createdAt'',
               ''total_components'']
              @ first_seen (map col_name (sorted_list_of_set (universe bn fs1))))"
proof (intro conjI allI impI)
  show "output_table (main bn (Some fs1)) = output_table (main bn (Some fs2))"
    using assms by (rule output_table_same_files)
next
  fix f df assume t: "output_table (main bn (Some fs1)) = Some (f, df)"
  from output_table_shape [OF t]
  show "map (\<lambda>r. str_key (cell df r ''filename'')) (cells df)
          = sort (map filename (loaded_setups bn fs1))" by simp
  then show "sorted (map (\<lambda>r. str_key (cell df r ''filename'')) (cells df))" by simp
  from output_table_shape [OF t]
  show "columns df =
          [''filename'', ''name'', ''uc2_verified'', ''collection'', ''author'',
           ''github_link'', ''description'', ''category'', ''version'', ''createdAt'',
           ''total_components'']
          @ first_seen (map col_name (sorted_list_of_set (universe bn fs1)))"
    by (simp add: metadata_columns_def)
qed

theorem table_deterministic_witness:
  "output_table (main posix_basename (Some [(''A.json'', Document doc_A), (''B.json'', Document doc_B)]))
     = output_table (main posix_basename (Some [(''B.json'', Document doc_B), (''A.json'', Document doc_A)]))
   \<and> output_table (main posix_basename (Some [(''A.json'', Document doc_A), (''B.json'', Document doc_B)]))
     = Some (''setups_analysis.csv'', scenario_table)"
proof -
  let ?fs1 = "[(''A.json'', Document doc_A), (''B.json'', Document doc_B)]"
  let ?fs2 = "[(''B.json'', Document doc_B), (''A.json'', Document doc_A)]"
  have d1: "distinct (map fst ?fs1)" and d2: "distinct (map fst ?fs2)" by simp_all
  have s: "set ?fs1 = set ?fs2" by auto
  have t: "output_table (main posix_basename (Some ?fs1)) = Some (''setups_analysis.csv'', scenario_table)"
    by code_simp
  from table_deterministic [OF d1 d2 s, of posix_basename] t show ?thesis by simp
qed

text \<open>
  Claim C6. For the corpus of the documents A and B, in either order of enumeration,
  the table has the columns \<open>component_laser_stl\<close> and \<open>component_nema17_stl\<close>
  after the metadata; the row of A has \<open>total_components\<close> 3, 2 for \<open>nema17.stl\<close> and
  1 for \<open>laser.stl\<close>; the row of B has 1, 1 and 0; and the first line of the component
  list printed is rank 1, usage 3, under the name \<open>nema17 stl\<close>, which is the column
  name of \<open>nema17.stl\<close> without its prefix and with underscores turned into spaces.
\<close>

theorem scenario_two_documents:
  "map_sum id (\<lambda>eff. (written eff, printed eff))
     (main posix_basename (Some [(''A.json'', Document doc_A), (''B.json'', Document doc_B)]))
   = Inr (Some (''setups_analysis.csv'', scenario_table),
          [Banner, TotalSetups 2, TotalUniqueComponents 2, MostUsedHeading,
           MostUsed 1 ''nema17 stl'' 3, MostUsed 2 ''laser stl'' 1,
           SavedTo ''setups_analysis.csv'', Banner]) \<and>
   map_sum id (\<lambda>eff. (written eff, printed eff))
     (main posix_basename (Some [(''B.json'', Document doc_B), (''A.json'', Document doc_A)]))
   = Inr (Some (''setups_analysis.csv'', scenario_table),
          [Banner, TotalSetups 2, TotalUniqueComponents 2, MostUsedHeading,
           MostUsed 1 ''nema17 stl'' 3, MostUsed 2 ''laser stl'' 1,
           SavedTo ''setups_analysis.csv'', Banner]) \<and>
   str_replace ''_'' '' '' (str_replace ''component_'' [] (col_name ''nema17.stl'')) = ''nema17 stl'' \<and>
   cell scenario_table (cells scenario_table ! 0) ''total_components'' = JInt 3 \<and>
   cell scenario_table (cells scenario_table ! 0) (col_name ''nema17.stl'') = JInt 2 \<and>
   cell scenario_table (cells scenario_table ! 0) (col_name ''laser.stl'') = JInt 1 \<and>
   cell scenario_table (cells scenario_table ! 1) ''total_components'' = JInt 1 \<and>
   cell scenario_table (cells scenario_table ! 1) (col_name ''nema17.stl'') = JInt 1 \<and>
   cell scenario_table (cells scenario_table ! 1) (col_name ''laser.stl'') = JInt 0"
  by code_simp

end
